theory Spec2Isabelle
  imports Complex_Main
begin

section \<open>The server checker: data model\<close>

text \<open>
  The program (\<^verbatim>\<open>check.ts\<close>) probes each configured server (a ping, then a TCP or
  UDP port check), classifies it, inserts one row per server into a database table and
  publishes a summary message that it edits in place from then on.

  \<^item> A JavaScript \<^verbatim>\<open>number\<close> is a finite value or NaN; every comparison with NaN
    is false. Finite doubles are read as the reals they denote, which keeps \<open><\<close> exact.
  \<^item> A promise is pending, fulfilled or rejected. \<^verbatim>\<open>await\<close> on a pending promise
    never resumes, on a rejected one it throws.
  \<^item> What the libraries answer (ping, sockets, SQLite, HTTP, the clock) is the \<open>world\<close>
    of one cycle, a parameter of every function: the theorems hold for every world.
  \<^item> \<^verbatim>\<open>socket.connect\<close> and \<^verbatim>\<open>client.send\<close> check the port before they start
    anything and throw \<^verbatim>\<open>ERR_SOCKET_BAD_PORT\<close> when it is not legal. Both calls stand
    in the executor of a \<^verbatim>\<open>new Promise\<close>, which turns a throw into a rejection of
    that promise. Every other failure of a socket arrives as an event.
\<close>

datatype number = Num real | NaN

fun js_less :: "number \<Rightarrow> number \<Rightarrow> bool" where
  "js_less (Num a) (Num b) = (a < b)"
| "js_less _ _ = False"

datatype error = PingError | BadPortError | SqliteError | AxiosError

datatype 'a promise = Pending | Fulfilled 'a | Rejected error

text \<open>\<^verbatim>\<open>Promise.all\<close>: rejected as soon as one member is rejected, else pending while
  one member is pending, else fulfilled with the values in order. The members of one
  call below are answers of one library, so every rejection carries the same error.\<close>

fun first_rejection :: "'a promise list \<Rightarrow> error option" where
  "first_rejection [] = None"
| "first_rejection (Rejected e # ps) = Some e"
| "first_rejection (_ # ps) = first_rejection ps"

fun fulfilled_values :: "'a promise list \<Rightarrow> 'a list option" where
  "fulfilled_values [] = Some []"
| "fulfilled_values (Fulfilled v # ps) =
     (case fulfilled_values ps of None \<Rightarrow> None | Some vs \<Rightarrow> Some (v # vs))"
| "fulfilled_values (_ # ps) = None"

definition promise_all :: "'a promise list \<Rightarrow> 'a list promise" where
  "promise_all ps =
     (case first_rejection ps of
        Some e \<Rightarrow> Rejected e
      | None \<Rightarrow> (case fulfilled_values ps of Some vs \<Rightarrow> Fulfilled vs | None \<Rightarrow> Pending))"

datatype protocol_kind = TCP | UDP

record ServerConfig =
  name :: string
  ip :: string
  port :: number
  protocol :: protocol_kind

text \<open>The object \<^verbatim>\<open>{ name, status, ping }\<close> that \<^verbatim>\<open>checkServerStatus\<close> returns.\<close>

record server_status =
  sname :: string
  status :: string
  ping :: "number option"

text \<open>The three constants of \<^verbatim>\<open>config.ini\<close> the program reads at start.\<close>

record config =
  botToken :: string
  channelId :: string
  servers :: "ServerConfig list"

subsection \<open>Strings\<close>

text \<open>The status strings start with an emoji; a string is the list of its UTF-8 bytes.
  A search for a whole code point matches in UTF-8 where it matches in UTF-16.\<close>

definition red_circle :: string where
  "red_circle = [CHR 0xF0, CHR 0x9F, CHR 0x94, CHR 0xB4]"

definition yellow_circle :: string where
  "yellow_circle = [CHR 0xF0, CHR 0x9F, CHR 0x9F, CHR 0xA1]"

definition green_circle :: string where
  "green_circle = [CHR 0xF0, CHR 0x9F, CHR 0x9F, CHR 0xA2]"

definition status_down :: string where
  "status_down = red_circle @ '' Down''"

definition status_degraded :: string where
  "status_degraded = yellow_circle @ '' Degraded''"

definition status_good :: string where
  "status_good = green_circle @ '' Good''"

text \<open>\<^verbatim>\<open>String.prototype.includes\<close>: the argument occurs at some position.\<close>

fun str_includes :: "string \<Rightarrow> string \<Rightarrow> bool" where
  "str_includes [] sub = (sub = [])"
| "str_includes (c # cs) sub = (take (length sub) (c # cs) = sub \<or> str_includes cs sub)"

section \<open>The probe\<close>

datatype ping_time = TimeNum number | TimeUnknown

record ping_response =
  alive :: bool
  time :: ping_time

datatype socket_event = Connect | Timeout | SocketError | OtherEvent

datatype udp_event = UdpError | SendCallback bool | UdpOther

text \<open>What the network answers to one call of \<^verbatim>\<open>checkServerStatus\<close>: the promise of
  \<^verbatim>\<open>ping.promise.probe\<close>, the events the TCP socket emits in order, and the events of
  the UDP socket (\<open>SendCallback err\<close> is the callback of \<^verbatim>\<open>send\<close>, \<open>err\<close> telling
  whether it got an error).\<close>

record net_world =
  probe :: "ping_response promise"
  tcp_events :: "socket_event list"
  udp_events :: "udp_event list"

text \<open>The network operations a call starts, in the order it starts them.\<close>

datatype net_op =
    PingProbe string
  | TcpConnect nat number string
  | UdpSend number string

definition pingServer :: "net_world \<Rightarrow> string \<Rightarrow> net_op list \<times> number option promise" where
  "pingServer w ip' =
     ([PingProbe ip'],
      (case probe w of
         Pending \<Rightarrow> Pending
       | Rejected e \<Rightarrow> Fulfilled None
       | Fulfilled res \<Rightarrow>
           Fulfilled (if alive res
                      then (case time res of TimeNum t \<Rightarrow> Some t | TimeUnknown \<Rightarrow> None)
                      else None)))"

text \<open>The promise of \<^verbatim>\<open>checkTCPPort\<close> is settled by the first event that has a
  handler: every handler calls \<^verbatim>\<open>resolve\<close>, none calls \<^verbatim>\<open>reject\<close>, and a settled
  promise ignores later calls.\<close>

fun tcp_settle :: "socket_event list \<Rightarrow> bool promise" where
  "tcp_settle [] = Pending"
| "tcp_settle (Connect # es) = Fulfilled True"
| "tcp_settle (Timeout # es) = Fulfilled False"
| "tcp_settle (SocketError # es) = Fulfilled False"
| "tcp_settle (OtherEvent # es) = tcp_settle es"

text \<open>The port check of Node (\<^verbatim>\<open>validatePort\<close>): an integer from 0 to 65535, and
  not 0 where the caller does not allow it. \<^verbatim>\<open>connect\<close> allows 0, \<^verbatim>\<open>send\<close> does
  not. NaN, which \<^verbatim>\<open>parseInt\<close> returns for a missing port, is not legal.\<close>

definition legal_port :: "bool \<Rightarrow> number \<Rightarrow> bool" where
  "legal_port allowZero p =
     (case p of
        NaN \<Rightarrow> False
      | Num r \<Rightarrow> of_int \<lfloor>r\<rfloor> = r \<and> 0 \<le> r \<and> r \<le> 65535 \<and> (allowZero \<or> r \<noteq> 0))"

text \<open>With a port that is not legal \<^verbatim>\<open>connect\<close> throws in the executor: no
  connection is started and the promise is rejected.\<close>

definition checkTCPPort :: "net_world \<Rightarrow> string \<Rightarrow> number \<Rightarrow> net_op list \<times> bool promise" where
  "checkTCPPort w ip' port' =
     (if legal_port True port'
      then ([TcpConnect 3000 port' ip'], tcp_settle (tcp_events w))
      else ([], Rejected BadPortError))"

fun udp_settle :: "udp_event list \<Rightarrow> bool promise" where
  "udp_settle [] = Pending"
| "udp_settle (UdpError # es) = Fulfilled False"
| "udp_settle (SendCallback err # es) = Fulfilled (\<not> err)"
| "udp_settle (UdpOther # es) = udp_settle es"

text \<open>Likewise \<^verbatim>\<open>send\<close>, which does not allow the port 0.\<close>

definition checkUDPPort :: "net_world \<Rightarrow> string \<Rightarrow> number \<Rightarrow> net_op list \<times> bool promise" where
  "checkUDPPort w ip' port' =
     (if legal_port False port'
      then ([UdpSend port' ip'], udp_settle (udp_events w))
      else ([], Rejected BadPortError))"

text \<open>Lines 99 to 108 of \<^verbatim>\<open>checkServerStatus\<close>: the status string.\<close>

definition status_of :: "number option \<Rightarrow> bool \<Rightarrow> string" where
  "status_of pingTime isPortOpen =
     (if pingTime \<noteq> None \<and> isPortOpen
      then (if js_less (the pingTime) (Num 100) then status_good
            else if js_less (the pingTime) (Num 200) then status_degraded
            else status_down)
      else status_down)"

text \<open>The port check \<^verbatim>\<open>checkServerStatus\<close> chooses by protocol.\<close>

definition port_check :: "net_world \<Rightarrow> ServerConfig \<Rightarrow> net_op list \<times> bool promise" where
  "port_check w server =
     (if protocol server = TCP
      then checkTCPPort w (ip server) (port server)
      else checkUDPPort w (ip server) (port server))"

text \<open>\<^verbatim>\<open>checkServerStatus\<close> awaits the ping, and only then calls and awaits the port
  check: the second operation is started when the first has settled.\<close>

definition checkServerStatus ::
  "net_world \<Rightarrow> ServerConfig \<Rightarrow> net_op list \<times> server_status promise" where
  "checkServerStatus w server =
     (case pingServer w (ip server) of
        (ops1, Pending) \<Rightarrow> (ops1, Pending)
      | (ops1, Rejected e) \<Rightarrow> (ops1, Rejected e)
      | (ops1, Fulfilled pingTime) \<Rightarrow>
          (case port_check w server of
             (ops2, Pending) \<Rightarrow> (ops1 @ ops2, Pending)
           | (ops2, Rejected e) \<Rightarrow> (ops1 @ ops2, Rejected e)
           | (ops2, Fulfilled isPortOpen) \<Rightarrow>
               (ops1 @ ops2,
                Fulfilled \<lparr>sname = name server,
                           status = status_of pingTime isPortOpen,
                           ping = pingTime\<rparr>)))"

section \<open>The reporter\<close>

record embed_field =
  fname :: string
  fvalue :: string
  inline :: bool

text \<open>An embed of the payload; \<open>efields\<close> is its \<^verbatim>\<open>fields\<close>.\<close>

record embed =
  title :: string
  description :: "string option"
  efields :: "embed_field list option"
  color :: nat

text \<open>The parameters of the \<^verbatim>\<open>INSERT\<close> statement, in the order of its columns.\<close>

record insert_row =
  row_name :: string
  row_ip :: "string option"
  row_port :: "number option"
  row_protocol :: "protocol_kind option"
  row_status :: string
  row_ping :: "number option"

text \<open>What a cycle does to the outside, in the order it does it. The two requests carry
  the channel id and, for an edit, the message id that the URL is built from, and the
  embeds of the payload.\<close>

datatype effect =
    DbRun insert_row
  | AxiosPost string "embed list"
  | AxiosPatch string string "embed list"
  | ConsoleError error
  | SetInterval nat

text \<open>The answers of one cycle: the network for the i-th server, the promise of the
  i-th \<^verbatim>\<open>db.run\<close>, the promises of the two requests (the one of \<^verbatim>\<open>post\<close> carries
  \<^verbatim>\<open>response.data.id\<close>), the two readings of \<^verbatim>\<open>Date.now()\<close> in order of the calls,
  and the text JavaScript prints a number as.\<close>

record world =
  dbPromise :: "unit promise"
  db_exec :: "unit promise"
  net :: "nat \<Rightarrow> net_world"
  db_run :: "nat \<Rightarrow> unit promise"
  axios_post :: "string promise"
  axios_patch :: "unit promise"
  date_now :: "nat \<Rightarrow> nat"
  to_string :: "number \<Rightarrow> string"

text \<open>The only variable the program updates, \<^verbatim>\<open>let discordMessageId = null\<close>.\<close>

record state =
  discordMessageId :: "string option"

definition initial_state :: state where
  "initial_state = \<lparr>discordMessageId = None\<rparr>"

text \<open>\<^verbatim>\<open>if (discordMessageId)\<close>: null and the empty string are falsy.\<close>

definition truthy :: "string option \<Rightarrow> bool" where
  "truthy v = (case v of None \<Rightarrow> False | Some s \<Rightarrow> s \<noteq> [])"

definition some_status :: "server_status list \<Rightarrow> string \<Rightarrow> bool" where
  "some_status statuses mark = list_ex (\<lambda>s. str_includes (status s) mark) statuses"

definition overallStatus :: "server_status list \<Rightarrow> string" where
  "overallStatus statuses =
     (if some_status statuses red_circle then red_circle @ '' Critical''
      else if some_status statuses yellow_circle then yellow_circle @ '' Warning''
      else green_circle @ '' Operational'')"

definition serverField :: "world \<Rightarrow> server_status \<Rightarrow> embed_field" where
  "serverField w s =
     \<lparr>fname = sname s,
      fvalue = status s @ '' | Ping: '' @
        (case ping s of Some p \<Rightarrow> to_string w p @ '' ms'' | None \<Rightarrow> ''N/A''),
      inline = True\<rparr>"

definition messagePayload :: "world \<Rightarrow> server_status list \<Rightarrow> embed list" where
  "messagePayload w statuses =
     (let nextUpdateInUnix = (date_now w 0 + 30000) div 1000;
          summaryEmbed =
            \<lparr>title = ''Server Status Summary'',
             description = Some (''**Overall Status:** '' @ overallStatus statuses @
               [CHR 0x0A, CHR 0x0A] @ ''Last updated: <t:'' @
               to_string w (Num (real (date_now w 1 div 1000))) @ '':R>'' @
               [CHR 0x0A] @ ''Next update: <t:'' @
               to_string w (Num (real nextUpdateInUnix)) @ '':R>''),
             efields = None,
             color = 0x2F3136\<rparr>;
          detailsEmbed =
            \<lparr>title = ''Server Details'',
             description = None,
             efields = Some (map (serverField w) statuses),
             color = 0x2F3136\<rparr>
      in [summaryEmbed, detailsEmbed])"

text \<open>The \<^verbatim>\<open>try\<close> block sends one request; a rejection is caught and logged, and the
  function returns normally. The variable is assigned only after a \<^verbatim>\<open>post\<close> that
  was fulfilled.\<close>

definition sendDiscordNotification ::
  "config \<Rightarrow> world \<Rightarrow> server_status list \<Rightarrow> state \<Rightarrow> effect list \<times> unit promise \<times> state" where
  "sendDiscordNotification cfg w statuses st =
     (let payload = messagePayload w statuses in
      if truthy (discordMessageId st)
      then (let request = AxiosPatch (channelId cfg) (the (discordMessageId st)) payload in
            case axios_patch w of
              Pending \<Rightarrow> ([request], Pending, st)
            | Rejected e \<Rightarrow> ([request, ConsoleError e], Fulfilled (), st)
            | Fulfilled u \<Rightarrow> ([request], Fulfilled (), st))
      else (let request = AxiosPost (channelId cfg) payload in
            case axios_post w of
              Pending \<Rightarrow> ([request], Pending, st)
            | Rejected e \<Rightarrow> ([request, ConsoleError e], Fulfilled (), st)
            | Fulfilled new_id \<Rightarrow>
                ([request], Fulfilled (), st\<lparr>discordMessageId := Some new_id\<rparr>)))"

section \<open>The orchestrator\<close>

text \<open>The parameter array of \<^verbatim>\<open>db.run\<close>: the address, port and protocol are those of
  the first configured server with the status's name (\<^verbatim>\<open>servers.find\<close>), or undefined.\<close>

definition insert_params :: "ServerConfig list \<Rightarrow> server_status \<Rightarrow> insert_row" where
  "insert_params srvs s =
     (let found = find (\<lambda>c. name c = sname s) srvs in
      \<lparr>row_name = sname s,
       row_ip = map_option ip found,
       row_port = map_option port found,
       row_protocol = map_option protocol found,
       row_status = status s,
       row_ping = ping s\<rparr>)"

text \<open>\<^verbatim>\<open>servers.map(server => checkServerStatus(server))\<close>: the promises, in the order
  of the servers.\<close>

definition check_all :: "world \<Rightarrow> ServerConfig list \<Rightarrow> server_status promise list" where
  "check_all w srvs = map (\<lambda>(i, server). snd (checkServerStatus (net w i) server)) (enumerate 0 srvs)"

text \<open>One cycle. Every \<^verbatim>\<open>db.run\<close> is called before the first is awaited; the
  notification is sent after \<^verbatim>\<open>Promise.all\<close> of the inserts was fulfilled. Nothing
  in the function catches a rejection.\<close>

definition monitorServers ::
  "config \<Rightarrow> world \<Rightarrow> state \<Rightarrow> effect list \<times> unit promise \<times> state" where
  "monitorServers cfg w st =
     (case dbPromise w of
        Pending \<Rightarrow> ([], Pending, st)
      | Rejected e \<Rightarrow> ([], Rejected e, st)
      | Fulfilled db \<Rightarrow>
          (case promise_all (check_all w (servers cfg)) of
             Pending \<Rightarrow> ([], Pending, st)
           | Rejected e \<Rightarrow> ([], Rejected e, st)
           | Fulfilled statuses \<Rightarrow>
               (let runs = map (\<lambda>s. DbRun (insert_params (servers cfg) s)) statuses in
                case promise_all (map (db_run w) [0..<length statuses]) of
                  Pending \<Rightarrow> (runs, Pending, st)
                | Rejected e \<Rightarrow> (runs, Rejected e, st)
                | Fulfilled done \<Rightarrow>
                    (case sendDiscordNotification cfg w statuses st of
                       (effs, r, st') \<Rightarrow> (runs @ effs, r, st')))))"

text \<open>The callback of \<^verbatim>\<open>setInterval\<close> awaits \<^verbatim>\<open>monitorServers\<close> and nothing else:
  its promise settles as that one does.\<close>

definition interval_callback ::
  "config \<Rightarrow> world \<Rightarrow> state \<Rightarrow> effect list \<times> unit promise \<times> state" where
  "interval_callback cfg w st = monitorServers cfg w st"

definition setupDatabase :: "world \<Rightarrow> unit promise" where
  "setupDatabase w =
     (case dbPromise w of
        Pending \<Rightarrow> Pending
      | Rejected e \<Rightarrow> Rejected e
      | Fulfilled db \<Rightarrow> db_exec w)"

definition startMonitoring ::
  "config \<Rightarrow> world \<Rightarrow> state \<Rightarrow> effect list \<times> unit promise \<times> state" where
  "startMonitoring cfg w st =
     (case setupDatabase w of
        Pending \<Rightarrow> ([], Pending, st)
      | Rejected e \<Rightarrow> ([], Rejected e, st)
      | Fulfilled u \<Rightarrow>
          (case monitorServers cfg w st of
             (effs, r, st') \<Rightarrow> (SetInterval 30000 # effs, r, st')))"

section \<open>Reading the effects of a run\<close>

fun db_rows :: "effect list \<Rightarrow> insert_row list" where
  "db_rows [] = []"
| "db_rows (DbRun r # es) = r # db_rows es"
| "db_rows (_ # es) = db_rows es"

fun is_post :: "effect \<Rightarrow> bool" where
  "is_post (AxiosPost c p) = True"
| "is_post _ = False"

fun is_patch :: "effect \<Rightarrow> bool" where
  "is_patch (AxiosPatch c m p) = True"
| "is_patch _ = False"

definition publish_calls :: "effect list \<Rightarrow> effect list" where
  "publish_calls effs = filter (\<lambda>e. is_post e \<or> is_patch e) effs"

fun patch_targets :: "effect list \<Rightarrow> string list" where
  "patch_targets [] = []"
| "patch_targets (AxiosPatch c m p # es) = m # patch_targets es"
| "patch_targets (_ # es) = patch_targets es"

fun console_errors :: "effect list \<Rightarrow> error list" where
  "console_errors [] = []"
| "console_errors (ConsoleError e # es) = e # console_errors es"
| "console_errors (_ # es) = console_errors es"

text \<open>The reporter called once per element, each call awaited before the next; a call
  that never returns ends the sequence.\<close>

fun publish_seq ::
  "config \<Rightarrow> (world \<times> server_status list) list \<Rightarrow> state \<Rightarrow> effect list \<times> state" where
  "publish_seq cfg [] st = ([], st)"
| "publish_seq cfg ((w, statuses) # rest) st =
     (case sendDiscordNotification cfg w statuses st of
        (effs, Fulfilled u, st') \<Rightarrow>
          (case publish_seq cfg rest st' of (effs', st'') \<Rightarrow> (effs @ effs', st''))
      | (effs, r, st') \<Rightarrow> (effs, st'))"

text \<open>A create that succeeds answers with the id of the new message, a non-empty
  string; an update that succeeds answers at all.\<close>

definition post_succeeds :: "world \<Rightarrow> bool" where
  "post_succeeds w = (case axios_post w of Fulfilled new_id \<Rightarrow> new_id \<noteq> [] | _ \<Rightarrow> False)"

definition patch_succeeds :: "world \<Rightarrow> bool" where
  "patch_succeeds w = (case axios_patch w of Fulfilled u \<Rightarrow> True | _ \<Rightarrow> False)"

definition posted_id :: "world \<Rightarrow> string" where
  "posted_id w = (case axios_post w of Fulfilled new_id \<Rightarrow> new_id | _ \<Rightarrow> [])"

text \<open>The update request a call sends while the message \<open>m\<close> is stored.\<close>

definition update_of :: "config \<Rightarrow> string \<Rightarrow> world \<times> server_status list \<Rightarrow> effect" where
  "update_of cfg m x = AxiosPatch (channelId cfg) m (messagePayload (fst x) (snd x))"

text \<open>The request of a call fails: the one the stored id selects is rejected.\<close>

definition publish_fails :: "world \<Rightarrow> state \<Rightarrow> error \<Rightarrow> bool" where
  "publish_fails w st e =
     (if truthy (discordMessageId st) then axios_patch w = Rejected e
      else axios_post w = Rejected e)"

text \<open>The first event of a socket that the port check has a handler for.\<close>

definition first_tcp_event :: "net_world \<Rightarrow> socket_event option" where
  "first_tcp_event nw = find (\<lambda>e. e \<noteq> OtherEvent) (tcp_events nw)"

definition first_udp_event :: "net_world \<Rightarrow> udp_event option" where
  "first_udp_event nw = find (\<lambda>e. e \<noteq> UdpOther) (udp_events nw)"

text \<open>The port of a server is one its port check accepts.\<close>

definition port_ok :: "ServerConfig \<Rightarrow> bool" where
  "port_ok server = legal_port (protocol server = TCP) (port server)"

text \<open>A probe of a server fails on the network: the ping throws or finds the host not
  alive, the TCP socket times out or reports an error before it connects, or the UDP
  socket reports an error or its send calls back with one.\<close>

definition probe_fails :: "net_world \<Rightarrow> ServerConfig \<Rightarrow> bool" where
  "probe_fails nw server =
     ((case probe nw of Rejected e \<Rightarrow> True | Fulfilled res \<Rightarrow> \<not> alive res | Pending \<Rightarrow> False)
      \<or> (if protocol server = TCP
          then first_tcp_event nw = Some Timeout \<or> first_tcp_event nw = Some SocketError
          else first_udp_event nw = Some UdpError \<or>
               first_udp_event nw = Some (SendCallback True)))"

text \<open>Both operations of a probe settle: the ping promise is not pending and the
  socket of the server's protocol emits an event the port check handles.\<close>

definition probe_settles :: "net_world \<Rightarrow> ServerConfig \<Rightarrow> bool" where
  "probe_settles nw server =
     (probe nw \<noteq> Pending \<and>
      (if protocol server = TCP then first_tcp_event nw \<noteq> None
       else first_udp_event nw \<noteq> None))"

subsection \<open>The statuses as the specification names them\<close>

datatype health = Good | Degraded | Down

fun health_label :: "health \<Rightarrow> string" where
  "health_label Good = status_good"
| "health_label Degraded = status_degraded"
| "health_label Down = status_down"

text \<open>The specification's aggregation: the worst status present, Down before Degraded
  before Good.\<close>

definition spec_overall :: "health list \<Rightarrow> health" where
  "spec_overall hs =
     (if Down \<in> set hs then Down else if Degraded \<in> set hs then Degraded else Good)"

text \<open>The labels the reporter prints for the overall status.\<close>

fun overall_label :: "health \<Rightarrow> string" where
  "overall_label Good = green_circle @ '' Operational''"
| "overall_label Degraded = yellow_circle @ '' Warning''"
| "overall_label Down = red_circle @ '' Critical''"

definition entry :: "string \<times> health \<times> number option \<Rightarrow> server_status" where
  "entry e = (case e of (n, h, p) \<Rightarrow> \<lparr>sname = n, status = health_label h, ping = p\<rparr>)"

subsection \<open>Concrete servers and worlds\<close>

definition web :: ServerConfig where
  "web = \<lparr>name = ''web'', ip = ''10.0.0.1'', port = Num 80, protocol = TCP\<rparr>"

definition game :: ServerConfig where
  "game = \<lparr>name = ''game'', ip = ''10.0.0.2'', port = Num 27015, protocol = UDP\<rparr>"

definition cfg0 :: config where
  "cfg0 = \<lparr>botToken = ''token'', channelId = ''42'', servers = [web, game]\<rparr>"

text \<open>A host that answers the ping in \<open>t\<close> ms, with the given socket events.\<close>

definition answering :: "real \<Rightarrow> socket_event list \<Rightarrow> udp_event list \<Rightarrow> net_world" where
  "answering t tcp udp =
     \<lparr>probe = Fulfilled \<lparr>alive = True, time = TimeNum (Num t)\<rparr>,
      tcp_events = tcp, udp_events = udp\<rparr>"

definition silent :: "socket_event list \<Rightarrow> udp_event list \<Rightarrow> net_world" where
  "silent tcp udp = \<lparr>probe = Rejected PingError, tcp_events = tcp, udp_events = udp\<rparr>"

definition ping_pending :: net_world where
  "ping_pending = \<lparr>probe = Pending, tcp_events = [Connect], udp_events = [SendCallback False]\<rparr>"

text \<open>A cycle in which every library answers well: both hosts up, every insert
  stored, the requests accepted, the new message given the id \<open>m1\<close>.\<close>

definition healthy :: world where
  "healthy =
     \<lparr>dbPromise = Fulfilled (), db_exec = Fulfilled (),
      net = (\<lambda>i. answering 50 [Connect] [SendCallback False]),
      db_run = (\<lambda>i. Fulfilled ()),
      axios_post = Fulfilled ''m1'', axios_patch = Fulfilled (),
      date_now = (\<lambda>k. 1700000000000 + k),
      to_string = (\<lambda>n. ''#'')\<rparr>"

definition db :: ServerConfig where
  "db = \<lparr>name = ''db'', ip = ''10.0.0.3'', port = Num 5432, protocol = TCP\<rparr>"

definition cfg3 :: config where
  "cfg3 = \<lparr>botToken = ''token'', channelId = ''42'', servers = [web, game, db]\<rparr>"

text \<open>The first host answers in 50 ms on an open port, the second in 150 ms, the third
  does not answer the ping and its port times out.\<close>

definition mixed :: world where
  "mixed = healthy\<lparr>net := (\<lambda>i. if i = 0 then answering 50 [Connect] []
                              else if i = 1 then answering 150 [] [SendCallback False]
                              else silent [Timeout] [])\<rparr>"

text \<open>A section of \<^verbatim>\<open>config.ini\<close> without a port line: \<^verbatim>\<open>parseInt(undefined, 10)\<close>
  is NaN.\<close>

definition noport :: ServerConfig where
  "noport = \<lparr>name = ''cache'', ip = ''10.0.0.4'', port = NaN, protocol = TCP\<rparr>"

text \<open>A UDP server on port 0.\<close>

definition udp_zero :: ServerConfig where
  "udp_zero = \<lparr>name = ''voice'', ip = ''10.0.0.5'', port = Num 0, protocol = UDP\<rparr>"

definition cfg_noport :: config where
  "cfg_noport = \<lparr>botToken = ''token'', channelId = ''42'', servers = [web, noport]\<rparr>"

text \<open>The second insert of the cycle is rejected.\<close>

definition storage_failure :: world where
  "storage_failure =
     healthy\<lparr>db_run := (\<lambda>i. if i = 1 then Rejected SqliteError else Fulfilled ())\<rparr>"

text \<open>The first insert of the cycle has not settled.\<close>

definition insert_pending :: world where
  "insert_pending = healthy\<lparr>db_run := (\<lambda>i. if i = 0 then Pending else Fulfilled ())\<rparr>"


section \<open>The classification\<close>

lemma status_strings_distinct:
  "status_good \<noteq> status_degraded" "status_good \<noteq> status_down"
  "status_degraded \<noteq> status_down"
  by (simp_all add: status_good_def status_degraded_def status_down_def
        green_circle_def yellow_circle_def red_circle_def)

lemma status_of_table:
  "\<not> R \<or> L = None \<Longrightarrow> status_of L R = status_down"
  "R \<Longrightarrow> l < 100 \<Longrightarrow> status_of (Some (Num l)) R = status_good"
  "R \<Longrightarrow> 100 \<le> l \<Longrightarrow> l < 200 \<Longrightarrow> status_of (Some (Num l)) R = status_degraded"
  "200 \<le> l \<Longrightarrow> status_of (Some (Num l)) R = status_down"
  "status_of (Some NaN) R = status_down"
  by (auto simp: status_of_def)

lemma checkServerStatus_settled:
  assumes "snd (pingServer w (ip server)) = Fulfilled L"
    and "snd (port_check w server) = Fulfilled R"
  shows "snd (checkServerStatus w server) =
           Fulfilled \<lparr>sname = name server, status = status_of L R, ping = L\<rparr>"
  using assms
  by (cases "pingServer w (ip server)"; cases "port_check w server")
     (simp add: checkServerStatus_def)

lemma answering_ping:
  "snd (pingServer (answering t tcp udp) a) = Fulfilled (Some (Num t))"
  by (simp add: pingServer_def answering_def)

lemma silent_ping: "snd (pingServer (silent tcp udp) a) = Fulfilled None"
  by (simp add: pingServer_def silent_def)

lemma web_port_check:
  "snd (port_check \<lparr>probe = p, tcp_events = tcp, udp_events = udp\<rparr> web) = tcp_settle tcp"
  by (simp add: port_check_def checkTCPPort_def legal_port_def web_def)

lemma game_port_check:
  "snd (port_check \<lparr>probe = p, tcp_events = tcp, udp_events = udp\<rparr> game) = udp_settle udp"
  by (simp add: port_check_def checkUDPPort_def legal_port_def game_def)

text \<open>
  C1. With \<open>L\<close> the latency \<^verbatim>\<open>pingServer\<close> returned (none when the ping failed) and
  \<open>R\<close> the answer of the port check, the status \<^verbatim>\<open>checkServerStatus\<close> returns is Down
  if \<open>R\<close> is false or \<open>L\<close> is none, Good if \<open>R\<close> and \<open>L < 100\<close>, Degraded if \<open>R\<close>
  and \<open>100 \<le> L < 200\<close>, and Down if \<open>R\<close> and \<open>L \<ge> 200\<close>.
\<close>

theorem classification_thresholds:
  assumes "snd (pingServer w (ip server)) = Fulfilled L"
    and "snd (port_check w server) = Fulfilled R"
  shows "\<exists>r. snd (checkServerStatus w server) = Fulfilled r \<and>
           (\<not> R \<or> L = None \<longrightarrow> status r = status_down) \<and>
           (\<forall>l. R \<and> L = Some (Num l) \<and> l < 100 \<longrightarrow> status r = status_good) \<and>
           (\<forall>l. R \<and> L = Some (Num l) \<and> 100 \<le> l \<and> l < 200 \<longrightarrow>
                status r = status_degraded) \<and>
           (\<forall>l. R \<and> L = Some (Num l) \<and> 200 \<le> l \<longrightarrow> status r = status_down)"
proof -
  let ?r = "\<lparr>sname = name server, status = status_of L R, ping = L\<rparr>"
  have "snd (checkServerStatus w server) = Fulfilled ?r"
    using assms by (rule checkServerStatus_settled)
  moreover have "\<not> R \<or> L = None \<longrightarrow> status ?r = status_down"
    by (simp add: status_of_table(1))
  moreover have "\<forall>l. R \<and> L = Some (Num l) \<and> l < 100 \<longrightarrow> status ?r = status_good"
    by (simp add: status_of_table(2))
  moreover have "\<forall>l. R \<and> L = Some (Num l) \<and> 100 \<le> l \<and> l < 200 \<longrightarrow>
      status ?r = status_degraded"
    by (simp add: status_of_table(3))
  moreover have "\<forall>l. R \<and> L = Some (Num l) \<and> 200 \<le> l \<longrightarrow> status ?r = status_down"
    by (simp add: status_of_table(4))
  ultimately show ?thesis by blast
qed

text \<open>The thresholds at 0, 99, 100, 199 and 200 ms on an open port, a fast host
  whose port times out, and a host that does not answer the ping.\<close>

theorem classification_thresholds_witness:
  "(\<exists>r. snd (checkServerStatus (answering 0 [Connect] []) web) = Fulfilled r \<and>
        status r = status_good) \<and>
   (\<exists>r. snd (checkServerStatus (answering 99 [Connect] []) web) = Fulfilled r \<and>
        status r = status_good) \<and>
   (\<exists>r. snd (checkServerStatus (answering 100 [Connect] []) web) = Fulfilled r \<and>
        status r = status_degraded) \<and>
   (\<exists>r. snd (checkServerStatus (answering 199 [Connect] []) web) = Fulfilled r \<and>
        status r = status_degraded) \<and>
   (\<exists>r. snd (checkServerStatus (answering 200 [Connect] []) web) = Fulfilled r \<and>
        status r = status_down) \<and>
   (\<exists>r. snd (checkServerStatus (answering 50 [Timeout] []) web) = Fulfilled r \<and>
        status r = status_down) \<and>
   (\<exists>r. snd (checkServerStatus (silent [Connect] []) web) = Fulfilled r \<and>
        status r = status_down)"
proof -
  have tcp: "snd (port_check (answering t [Connect] []) web) = Fulfilled True" for t
    by (simp add: answering_def web_port_check)
  have tmo: "snd (port_check (answering 50 [Timeout] []) web) = Fulfilled False"
    by (simp add: answering_def web_port_check)
  have opn: "snd (port_check (silent [Connect] []) web) = Fulfilled True"
    by (simp add: silent_def web_port_check)
  note c = classification_thresholds [OF answering_ping tcp]
  have "\<exists>r. snd (checkServerStatus (answering 0 [Connect] []) web) = Fulfilled r \<and>
      status r = status_good"
    using c [of 0] by auto
  moreover have "\<exists>r. snd (checkServerStatus (answering 99 [Connect] []) web) = Fulfilled r \<and>
      status r = status_good"
    using c [of 99] by auto
  moreover have "\<exists>r. snd (checkServerStatus (answering 100 [Connect] []) web) = Fulfilled r \<and>
      status r = status_degraded"
    using c [of 100] by auto
  moreover have "\<exists>r. snd (checkServerStatus (answering 199 [Connect] []) web) = Fulfilled r \<and>
      status r = status_degraded"
    using c [of 199] by auto
  moreover have "\<exists>r. snd (checkServerStatus (answering 200 [Connect] []) web) = Fulfilled r \<and>
      status r = status_down"
    using c [of 200] by auto
  moreover have "\<exists>r. snd (checkServerStatus (answering 50 [Timeout] []) web) = Fulfilled r \<and>
      status r = status_down"
    using classification_thresholds [OF answering_ping tmo] by auto
  moreover have "\<exists>r. snd (checkServerStatus (silent [Connect] []) web) = Fulfilled r \<and>
      status r = status_down"
    using classification_thresholds [OF silent_ping opn] by auto
  ultimately show ?thesis by blast
qed

section \<open>What the probe returns\<close>

lemma pingServer_not_rejected: "snd (pingServer w a) \<noteq> Rejected e"
  by (simp add: pingServer_def split: promise.splits)

lemma tcp_settle_first:
  "tcp_settle es =
     (case find (\<lambda>e. e \<noteq> OtherEvent) es of
        None \<Rightarrow> Pending
      | Some Connect \<Rightarrow> Fulfilled True
      | Some e \<Rightarrow> Fulfilled False)"
  by (induction es rule: tcp_settle.induct) simp_all

lemma udp_settle_first:
  "udp_settle es =
     (case find (\<lambda>e. e \<noteq> UdpOther) es of
        None \<Rightarrow> Pending
      | Some UdpError \<Rightarrow> Fulfilled False
      | Some (SendCallback err) \<Rightarrow> Fulfilled (\<not> err)
      | Some UdpOther \<Rightarrow> Pending)"
  by (induction es rule: udp_settle.induct) simp_all

lemma port_check_legal:
  assumes "port_ok server"
  shows "snd (port_check w server) =
           (if protocol server = TCP then tcp_settle (tcp_events w)
            else udp_settle (udp_events w))"
  using assms
  by (cases "protocol server = TCP")
     (simp_all add: port_check_def port_ok_def checkTCPPort_def checkUDPPort_def)

lemma port_check_illegal:
  assumes "\<not> port_ok server"
  shows "port_check w server = ([], Rejected BadPortError)"
  using assms
  by (cases "protocol server = TCP")
     (simp_all add: port_check_def port_ok_def checkTCPPort_def checkUDPPort_def)

text \<open>On a legal port both sub-checks fold every failure of the network into their
  answer: a probe that settles returns a latency and a reachability, with latency none
  or reachability false after a failure.\<close>

lemma settled_probe_result:
  assumes "port_ok server" and "probe_settles nw server"
  shows "\<exists>L R. snd (pingServer nw (ip server)) = Fulfilled L \<and>
           snd (port_check nw server) = Fulfilled R \<and>
           (probe_fails nw server \<longrightarrow> L = None \<or> \<not> R)"
proof -
  obtain L where L: "snd (pingServer nw (ip server)) = Fulfilled L"
    using assms(2) by (cases "probe nw") (auto simp: probe_settles_def pingServer_def)
  have ping: "(case probe nw of Rejected e \<Rightarrow> True | Fulfilled res \<Rightarrow> \<not> alive res
      | Pending \<Rightarrow> False) \<longrightarrow> L = None"
    using L by (auto simp: pingServer_def split: promise.splits)
  show ?thesis
  proof (cases "protocol server = TCP")
    case True
    then obtain ev where ev: "find (\<lambda>e. e \<noteq> OtherEvent) (tcp_events nw) = Some ev"
      using assms(2) by (auto simp: probe_settles_def first_tcp_event_def)
    have "snd (port_check nw server) = Fulfilled (ev = Connect)"
      using True ev by (cases ev) (simp_all add: port_check_legal [OF assms(1)] tcp_settle_first)
    moreover have "probe_fails nw server \<longrightarrow> L = None \<or> ev \<noteq> Connect"
      using True ev ping by (auto simp: probe_fails_def first_tcp_event_def)
    ultimately show ?thesis using L by blast
  next
    case False
    then obtain ev where ev: "find (\<lambda>e. e \<noteq> UdpOther) (udp_events nw) = Some ev"
      using assms(2) by (auto simp: probe_settles_def first_udp_event_def)
    then have o: "ev \<noteq> UdpOther"
      by (auto simp: find_Some_iff)
    have "snd (port_check nw server) = Fulfilled (ev = SendCallback False)"
      using False ev o
      by (cases ev) (simp_all add: port_check_legal [OF assms(1)] udp_settle_first)
    moreover have "probe_fails nw server \<longrightarrow> L = None \<or> ev \<noteq> SendCallback False"
      using False ev ping by (auto simp: probe_fails_def first_udp_event_def)
    ultimately show ?thesis using L by blast
  qed
qed

lemma settled_status:
  assumes "port_ok server" and "probe_settles nw server"
  shows "\<exists>s. snd (checkServerStatus nw server) = Fulfilled s \<and> sname s = name server \<and>
           (probe_fails nw server \<longrightarrow> status s = status_down)"
proof -
  obtain L R where L: "snd (pingServer nw (ip server)) = Fulfilled L"
    and R: "snd (port_check nw server) = Fulfilled R"
    and f: "probe_fails nw server \<longrightarrow> L = None \<or> \<not> R"
    using settled_probe_result [OF assms] by blast
  have "probe_fails nw server \<longrightarrow> status_of L R = status_down"
    using f by (auto simp: status_of_def)
  then show ?thesis
    using checkServerStatus_settled [OF L R] by simp
qed

text \<open>
  C5. The claim is that the probe never rejects to its caller, for every endpoint.
  \<^verbatim>\<open>pingServer\<close> catches, and the handlers of the sockets resolve; but for the server
  \<open>noport\<close>, whose port is NaN, \<^verbatim>\<open>connect\<close> throws in the executor of
  \<^verbatim>\<open>checkTCPPort\<close>: its promise is rejected, and so is the one of
  \<^verbatim>\<open>checkServerStatus\<close>, which has no catch, although the host answers the ping and
  the socket would connect. The same holds for the UDP server on port 0. The server
  \<open>web\<close> on the same network gets a result.
\<close>

theorem bad_port_rejects_probe:
  "checkTCPPort (answering 50 [Connect] []) ''10.0.0.4'' NaN = ([], Rejected BadPortError) \<and>
   snd (pingServer (answering 50 [Connect] []) ''10.0.0.4'') = Fulfilled (Some (Num 50)) \<and>
   snd (checkServerStatus (answering 50 [Connect] []) noport) = Rejected BadPortError \<and>
   snd (checkServerStatus (answering 50 [] [SendCallback False]) udp_zero) =
     Rejected BadPortError \<and>
   snd (checkServerStatus (answering 50 [Connect] []) web) =
     Fulfilled \<lparr>sname = ''web'', status = status_good, ping = Some (Num 50)\<rparr>"
  by (simp add: checkServerStatus_def pingServer_def port_check_def checkTCPPort_def
        checkUDPPort_def legal_port_def answering_def noport_def udp_zero_def web_def
        status_of_def)

section \<open>The aggregation\<close>

lemma includes_red: "str_includes (health_label h) red_circle = (h = Down)"
  by (cases h)
     (simp_all add: status_good_def status_degraded_def status_down_def
        green_circle_def yellow_circle_def red_circle_def)

lemma includes_yellow: "str_includes (health_label h) yellow_circle = (h = Degraded)"
  by (cases h)
     (simp_all add: status_good_def status_degraded_def status_down_def
        green_circle_def yellow_circle_def red_circle_def)

lemma entry_status: "status (entry e) = health_label (fst (snd e))"
  by (cases e) (simp add: entry_def)

lemma some_status_red:
  "some_status (map entry es) red_circle = (Down \<in> set (map (fst \<circ> snd) es))"
  by (force simp: some_status_def list_ex_iff entry_status includes_red image_iff)

lemma some_status_yellow:
  "some_status (map entry es) yellow_circle = (Degraded \<in> set (map (fst \<circ> snd) es))"
  by (force simp: some_status_def list_ex_iff entry_status includes_yellow image_iff)

text \<open>
  C4. For every sequence of per-endpoint statuses (each Good, Degraded or Down, under
  any name and latency), the overall status the reporter computes is the worst one
  present: Critical (red) if some status is Down, else Warning (yellow) if some status
  is Degraded, else Operational (green).
\<close>

theorem overall_status_worst_of:
  "overallStatus (map entry es) = overall_label (spec_overall (map (fst \<circ> snd) es))"
  unfolding overallStatus_def spec_overall_def some_status_red some_status_yellow
  by simp

text \<open>The mixed sets of the specification.\<close>

theorem overall_status_worst_of_witness:
  "overallStatus [entry (''a'', Good, Some (Num 50)), entry (''b'', Degraded, Some (Num 150))]
     = yellow_circle @ '' Warning'' \<and>
   overallStatus [entry (''a'', Good, Some (Num 50)), entry (''b'', Down, None)]
     = red_circle @ '' Critical'' \<and>
   overallStatus [entry (''a'', Good, Some (Num 50)), entry (''b'', Good, Some (Num 60))]
     = green_circle @ '' Operational'' \<and>
   overallStatus [entry (''a'', Degraded, Some (Num 150)), entry (''b'', Down, None)]
     = red_circle @ '' Critical''"
  using overall_status_worst_of [of "[(''a'', Good, Some (Num 50)), (''b'', Degraded, Some (Num 150))]"]
    overall_status_worst_of [of "[(''a'', Good, Some (Num 50)), (''b'', Down, None)]"]
    overall_status_worst_of [of "[(''a'', Good, Some (Num 50)), (''b'', Good, Some (Num 60))]"]
    overall_status_worst_of [of "[(''a'', Degraded, Some (Num 150)), (''b'', Down, None)]"]
  by (simp add: spec_overall_def)

section \<open>A failed publish\<close>

text \<open>
  C6. When the request of a publish is rejected, the reporter logs the error
  (\<^verbatim>\<open>console.error\<close>), leaves \<^verbatim>\<open>discordMessageId\<close> as it was, and returns
  normally: its promise is fulfilled, so the failure does not reach the cycle.
\<close>

theorem publish_failure_contained:
  assumes "publish_fails w st e"
  shows "\<exists>request. sendDiscordNotification cfg w statuses st =
           ([request, ConsoleError e], Fulfilled (), st) \<and>
           (is_post request \<or> is_patch request)"
  using assms
  by (auto simp: sendDiscordNotification_def publish_fails_def Let_def)

text \<open>An update that is rejected while the message \<open>m1\<close> is stored, and a create
  that is rejected while nothing is stored.\<close>

theorem publish_failure_contained_witness:
  "sendDiscordNotification cfg0 (healthy\<lparr>axios_patch := Rejected AxiosError\<rparr>) []
       \<lparr>discordMessageId = Some ''m1''\<rparr> =
     ([AxiosPatch ''42'' ''m1'' (messagePayload healthy []), ConsoleError AxiosError],
      Fulfilled (), \<lparr>discordMessageId = Some ''m1''\<rparr>) \<and>
   snd (sendDiscordNotification cfg0 (healthy\<lparr>axios_post := Rejected AxiosError\<rparr>) []
       initial_state) = (Fulfilled (), initial_state)"
proof -
  have a: "publish_fails (healthy\<lparr>axios_patch := Rejected AxiosError\<rparr>)
      \<lparr>discordMessageId = Some ''m1''\<rparr> AxiosError"
    by (simp add: publish_fails_def truthy_def)
  have b: "publish_fails (healthy\<lparr>axios_post := Rejected AxiosError\<rparr>) initial_state AxiosError"
    by (simp add: publish_fails_def truthy_def initial_state_def)
  have "sendDiscordNotification cfg0 (healthy\<lparr>axios_patch := Rejected AxiosError\<rparr>) []
       \<lparr>discordMessageId = Some ''m1''\<rparr> =
     ([AxiosPatch ''42'' ''m1'' (messagePayload healthy []), ConsoleError AxiosError],
      Fulfilled (), \<lparr>discordMessageId = Some ''m1''\<rparr>)"
    using publish_failure_contained [OF a, of cfg0 "[]"]
    by (auto simp: sendDiscordNotification_def truthy_def cfg0_def messagePayload_def
          Let_def healthy_def serverField_def)
  moreover have "snd (sendDiscordNotification cfg0 (healthy\<lparr>axios_post := Rejected AxiosError\<rparr>) []
       initial_state) = (Fulfilled (), initial_state)"
    using publish_failure_contained [OF b, of cfg0 "[]"] by auto
  ultimately show ?thesis by blast
qed

section \<open>Create once, then update\<close>

lemma send_create:
  assumes "\<not> truthy (discordMessageId st)" and "axios_post w = Fulfilled new_id"
  shows "sendDiscordNotification cfg w statuses st =
           ([AxiosPost (channelId cfg) (messagePayload w statuses)], Fulfilled (),
            st\<lparr>discordMessageId := Some new_id\<rparr>)"
  using assms by (simp add: sendDiscordNotification_def Let_def)

lemma send_update:
  assumes "discordMessageId st = Some m" and "m \<noteq> []" and "patch_succeeds w"
  shows "sendDiscordNotification cfg w statuses st =
           ([AxiosPatch (channelId cfg) m (messagePayload w statuses)], Fulfilled (), st)"
  using assms
  by (simp add: sendDiscordNotification_def Let_def truthy_def patch_succeeds_def
        split: promise.splits)

lemma publish_seq_updates:
  assumes "discordMessageId st = Some m" and "m \<noteq> []"
    and "\<forall>x \<in> set ins. patch_succeeds (fst x)"
  shows "publish_seq cfg ins st = (map (update_of cfg m) ins, st)"
  using assms
proof (induction ins)
  case Nil
  then show ?case by simp
next
  case (Cons x ins)
  obtain w statuses where x: "x = (w, statuses)" by (cases x)
  have "patch_succeeds w" using Cons.prems(3) x by simp
  then have "sendDiscordNotification cfg w statuses st =
      ([AxiosPatch (channelId cfg) m (messagePayload w statuses)], Fulfilled (), st)"
    using Cons.prems(1,2) by (rule send_update [rotated 2])
  moreover have "publish_seq cfg ins st = (map (update_of cfg m) ins, st)"
    using Cons by simp
  ultimately show ?case by (simp add: x update_of_def)
qed

lemma publish_seq_from_start:
  assumes "post_succeeds w" and "\<forall>x \<in> set rest. patch_succeeds (fst x)"
  shows "publish_seq cfg ((w, statuses) # rest) initial_state =
           (AxiosPost (channelId cfg) (messagePayload w statuses) #
              map (update_of cfg (posted_id w)) rest,
            \<lparr>discordMessageId = Some (posted_id w)\<rparr>)"
proof -
  obtain new_id where p: "axios_post w = Fulfilled new_id" and n: "new_id \<noteq> []"
    using assms(1) by (auto simp: post_succeeds_def split: promise.splits)
  have i: "posted_id w = new_id" using p by (simp add: posted_id_def)
  have "\<not> truthy (discordMessageId initial_state)"
    by (simp add: truthy_def initial_state_def)
  then have s: "sendDiscordNotification cfg w statuses initial_state =
      ([AxiosPost (channelId cfg) (messagePayload w statuses)], Fulfilled (),
       initial_state\<lparr>discordMessageId := Some new_id\<rparr>)"
    using p by (rule send_create)
  have "publish_seq cfg rest (initial_state\<lparr>discordMessageId := Some new_id\<rparr>) =
      (map (update_of cfg new_id) rest, initial_state\<lparr>discordMessageId := Some new_id\<rparr>)"
    using n assms(2) by (intro publish_seq_updates) simp_all
  with s show ?thesis by (simp add: i initial_state_def)
qed

lemma update_of_kind: "is_patch (update_of cfg m x)" "\<not> is_post (update_of cfg m x)"
  by (simp_all add: update_of_def)

lemma effects_of_updates:
  "filter is_post (map (update_of cfg m) ins) = []"
  "length (filter is_patch (map (update_of cfg m) ins)) = length ins"
  "patch_targets (map (update_of cfg m) ins) = replicate (length ins) m"
  by (induction ins) (simp_all add: update_of_def)

text \<open>
  C3. Calling the reporter N times in sequence (N at least 1), where the create of the
  first call succeeds with the id of the new message and the update of every later call
  succeeds, sends exactly one create, first, and N - 1 updates, all of the message with
  that id. The id is unset at startup, is set by the first call, and is the stored id
  after every later call.
\<close>

theorem one_create_then_updates:
  assumes "ins \<noteq> []" and "post_succeeds (fst (hd ins))"
    and "\<forall>x \<in> set (tl ins). patch_succeeds (fst x)"
  shows "discordMessageId initial_state = None \<and>
         length (filter is_post (fst (publish_seq cfg ins initial_state))) = 1 \<and>
         length (filter is_patch (fst (publish_seq cfg ins initial_state))) = length ins - 1 \<and>
         is_post (hd (fst (publish_seq cfg ins initial_state))) \<and>
         patch_targets (fst (publish_seq cfg ins initial_state)) =
           replicate (length ins - 1) (posted_id (fst (hd ins))) \<and>
         (\<forall>k. 1 \<le> k \<and> k \<le> length ins \<longrightarrow>
            discordMessageId (snd (publish_seq cfg (take k ins) initial_state)) =
              Some (posted_id (fst (hd ins))))"
proof -
  obtain w statuses rest where ins: "ins = (w, statuses) # rest"
    using assms(1) by (cases ins) auto
  have post: "post_succeeds w" and patch: "\<forall>x \<in> set rest. patch_succeeds (fst x)"
    using assms(2,3) by (simp_all add: ins)
  note run = publish_seq_from_start [OF post patch, of cfg statuses]
  have "\<forall>k. 1 \<le> k \<and> k \<le> length ins \<longrightarrow>
      discordMessageId (snd (publish_seq cfg (take k ins) initial_state)) = Some (posted_id w)"
  proof (intro allI impI)
    fix k assume k: "1 \<le> k \<and> k \<le> length ins"
    then obtain j where j: "k = Suc j" by (cases k) auto
    have "\<forall>x \<in> set (take j rest). patch_succeeds (fst x)"
      using patch by (meson in_set_takeD)
    from publish_seq_from_start [OF post this, of cfg statuses]
    show "discordMessageId (snd (publish_seq cfg (take k ins) initial_state)) =
        Some (posted_id w)"
      by (simp add: ins j)
  qed
  moreover have r: "publish_seq cfg ins initial_state =
      (AxiosPost (channelId cfg) (messagePayload w statuses) #
         map (update_of cfg (posted_id w)) rest,
       \<lparr>discordMessageId = Some (posted_id w)\<rparr>)"
    using run by (simp only: ins)
  moreover have "length ins - 1 = length rest" and "fst (hd ins) = w"
    by (simp_all add: ins)
  ultimately show ?thesis
    by (simp add: effects_of_updates(3) update_of_kind o_def initial_state_def
          del: publish_seq.simps)
qed

text \<open>Three calls in a row.\<close>

theorem one_create_then_updates_witness:
  "length (filter is_post
     (fst (publish_seq cfg0 [(healthy, []), (healthy, []), (healthy, [])] initial_state))) = 1 \<and>
   length (filter is_patch
     (fst (publish_seq cfg0 [(healthy, []), (healthy, []), (healthy, [])] initial_state))) = 2 \<and>
   patch_targets
     (fst (publish_seq cfg0 [(healthy, []), (healthy, []), (healthy, [])] initial_state)) =
     [''m1'', ''m1''] \<and>
   discordMessageId
     (snd (publish_seq cfg0 [(healthy, []), (healthy, []), (healthy, [])] initial_state)) =
     Some ''m1''"
proof -
  let ?ins = "[(healthy, []), (healthy, []), (healthy, [])] :: (world \<times> server_status list) list"
  have a: "?ins \<noteq> []" by simp
  have b: "post_succeeds (fst (hd ?ins))"
    by (simp add: post_succeeds_def healthy_def)
  have c: "\<forall>x \<in> set (tl ?ins). patch_succeeds (fst x)"
    by (simp add: patch_succeeds_def healthy_def)
  have d: "posted_id healthy = ''m1''"
    by (simp add: posted_id_def healthy_def)
  have e: "replicate (length ?ins - 1) ''m1'' = [''m1'', ''m1'']"
    by (simp add: numeral_2_eq_2)
  from one_create_then_updates [OF a b c, of cfg0]
  have t: "length (filter is_post (fst (publish_seq cfg0 ?ins initial_state))) = 1 \<and>
         length (filter is_patch (fst (publish_seq cfg0 ?ins initial_state))) = length ?ins - 1 \<and>
         patch_targets (fst (publish_seq cfg0 ?ins initial_state)) =
           replicate (length ?ins - 1) (posted_id (fst (hd ?ins))) \<and>
         (\<forall>k. 1 \<le> k \<and> k \<le> length ?ins \<longrightarrow>
            discordMessageId (snd (publish_seq cfg0 (take k ?ins) initial_state)) =
              Some (posted_id (fst (hd ?ins))))"
    by blast
  then have "discordMessageId (snd (publish_seq cfg0 (take 3 ?ins) initial_state)) =
      Some (posted_id (fst (hd ?ins)))"
    by (elim conjE allE [of _ 3]) (simp del: publish_seq.simps)
  then have "discordMessageId (snd (publish_seq cfg0 ?ins initial_state)) = Some ''m1''"
    by (simp add: d del: publish_seq.simps)
  moreover have "patch_targets (fst (publish_seq cfg0 ?ins initial_state)) = [''m1'', ''m1'']"
    using t d e by (simp del: publish_seq.simps)
  moreover have "length (filter is_patch (fst (publish_seq cfg0 ?ins initial_state))) = 2"
    using t by (simp del: publish_seq.simps)
  ultimately show ?thesis using t by blast
qed

section \<open>One cycle\<close>

lemma promise_all_fulfilled: "promise_all (map Fulfilled vs) = Fulfilled vs"
proof -
  have "first_rejection (map Fulfilled vs) = None"
    by (induction vs) simp_all
  moreover have "fulfilled_values (map Fulfilled vs) = Some vs"
    by (induction vs) simp_all
  ultimately show ?thesis by (simp add: promise_all_def)
qed

lemma promise_all_Fulfilled_iff:
  "promise_all ps = Fulfilled vs \<longleftrightarrow> ps = map Fulfilled vs"
proof
  assume a: "promise_all ps = Fulfilled vs"
  then have "fulfilled_values ps = Some vs"
    by (simp add: promise_all_def split: option.splits)
  then show "ps = map Fulfilled vs"
  proof (induction ps arbitrary: vs)
    case Nil
    then show ?case by simp
  next
    case (Cons p ps)
    then show ?case by (cases p) (auto split: option.splits)
  qed
next
  assume "ps = map Fulfilled vs"
  then show "promise_all ps = Fulfilled vs" by (simp add: promise_all_fulfilled)
qed

lemma all_fulfilled_map:
  assumes "\<forall>i<length ps. \<exists>v. ps ! i = Fulfilled v"
  shows "\<exists>vs. ps = map Fulfilled vs"
  using assms
proof (induction ps)
  case Nil
  then show ?case by simp
next
  case (Cons p ps)
  from Cons.prems obtain v where v: "p = Fulfilled v" by fastforce
  from Cons.prems have "\<forall>i<length ps. \<exists>v. ps ! i = Fulfilled v" by fastforce
  with Cons.IH obtain vs where "ps = map Fulfilled vs" by blast
  with v have "p # ps = map Fulfilled (v # vs)" by simp
  then show ?case by (rule exI)
qed

lemma check_all_length: "length (check_all w srvs) = length srvs"
  by (simp add: check_all_def)

lemma check_all_nth:
  "i < length srvs \<Longrightarrow> check_all w srvs ! i = snd (checkServerStatus (net w i) (srvs ! i))"
  by (simp add: check_all_def nth_enumerate_eq)

lemma check_all_settled:
  assumes "\<forall>i<length srvs. port_ok (srvs ! i)"
    and "\<forall>i<length srvs. probe_settles (net w i) (srvs ! i)"
  shows "\<exists>statuses. promise_all (check_all w srvs) = Fulfilled statuses \<and>
           length statuses = length srvs \<and>
           (\<forall>i<length srvs.
              snd (checkServerStatus (net w i) (srvs ! i)) = Fulfilled (statuses ! i))"
proof -
  have "\<forall>i<length (check_all w srvs). \<exists>v. check_all w srvs ! i = Fulfilled v"
  proof (intro allI impI)
    fix i assume "i < length (check_all w srvs)"
    then have i: "i < length srvs" by (simp add: check_all_length)
    with assms have "port_ok (srvs ! i)" and "probe_settles (net w i) (srvs ! i)"
      by blast+
    then obtain L R where "snd (pingServer (net w i) (ip (srvs ! i))) = Fulfilled L"
      and "snd (port_check (net w i) (srvs ! i)) = Fulfilled R"
      using settled_probe_result by blast
    then show "\<exists>v. check_all w srvs ! i = Fulfilled v"
      using checkServerStatus_settled i by (simp add: check_all_nth)
  qed
  then obtain statuses where s: "check_all w srvs = map Fulfilled statuses"
    using all_fulfilled_map by blast
  then have l: "length statuses = length srvs"
    using check_all_length [of w srvs] by simp
  have "\<forall>i<length srvs.
      snd (checkServerStatus (net w i) (srvs ! i)) = Fulfilled (statuses ! i)"
    using s l check_all_nth [of _ srvs w] by (metis nth_map)
  with s l show ?thesis by (auto simp: promise_all_fulfilled)
qed

lemma send_effects:
  "db_rows (fst (sendDiscordNotification cfg w statuses st)) = [] \<and>
   length (publish_calls (fst (sendDiscordNotification cfg w statuses st))) = 1"
  by (simp add: sendDiscordNotification_def Let_def publish_calls_def split: promise.splits)

lemma db_rows_runs:
  "db_rows (map (\<lambda>s. DbRun (f s)) statuses @ effs) = map f statuses @ db_rows effs"
  by (induction statuses) simp_all

lemma publish_calls_runs:
  "publish_calls (map (\<lambda>s. DbRun (f s)) statuses @ effs) = publish_calls effs"
  by (induction statuses) (simp_all add: publish_calls_def)

lemma monitorServers_effects:
  assumes "dbPromise w = Fulfilled u"
    and "promise_all (check_all w (servers cfg)) = Fulfilled statuses"
  shows "fst (monitorServers cfg w st) =
           map (\<lambda>s. DbRun (insert_params (servers cfg) s)) statuses @
           (case promise_all (map (db_run w) [0..<length statuses]) of
              Fulfilled done \<Rightarrow> fst (sendDiscordNotification cfg w statuses st)
            | _ \<Rightarrow> [])"
  using assms
  by (simp add: monitorServers_def Let_def split: promise.splits prod.splits)

lemma inserts_all_fulfilled:
  assumes "\<forall>i<n. db_run w i = Fulfilled ()"
  shows "promise_all (map (db_run w) [0..<n]) = Fulfilled (replicate n ())"
proof -
  have "map (db_run w) [0..<n] = map Fulfilled (replicate n ())"
    using assms by (auto intro: nth_equalityI)
  then show ?thesis by (simp only: promise_all_fulfilled)
qed

lemma inserts_some_pending:
  assumes "i < n" and "db_run w i = Pending"
    and "first_rejection (map (db_run w) [0..<n]) = None"
  shows "promise_all (map (db_run w) [0..<n]) = Pending"
proof -
  have "promise_all (map (db_run w) [0..<n]) \<noteq> Fulfilled vs" for vs
  proof
    assume "promise_all (map (db_run w) [0..<n]) = Fulfilled vs"
    then have e: "map (db_run w) [0..<n] = map Fulfilled vs"
      by (simp add: promise_all_Fulfilled_iff)
    then have "length vs = n"
      by (metis length_map length_upt minus_nat.diff_0)
    with e assms(1) have "db_run w i = Fulfilled (vs ! i)"
      by (metis add_0 length_map nth_map nth_upt)
    with assms(2) show False by simp
  qed
  then show ?thesis
    using assms(3) by (cases "promise_all (map (db_run w) [0..<n])")
      (auto simp: promise_all_def split: option.splits)
qed

text \<open>Over servers whose ports are legal, a cycle whose database handle is open and
  whose probes all settle calls \<^verbatim>\<open>db.run\<close> exactly once per configured server, in
  order, the i-th row made from the result of the i-th server's own probe and carrying
  its name, and sends at most one publish request, whatever the network answered. A
  probe that failed on the network still gives a row for its server, with status Down;
  and when the inserts are fulfilled the cycle sends exactly one publish request.\<close>

lemma cycle_with_legal_ports:
  assumes "dbPromise w = Fulfilled ()"
    and "\<forall>i<length (servers cfg). port_ok (servers cfg ! i)"
    and "\<forall>i<length (servers cfg). probe_settles (net w i) (servers cfg ! i)"
  shows "length (db_rows (fst (monitorServers cfg w st))) = length (servers cfg) \<and>
         (\<forall>i<length (servers cfg). \<exists>s.
            snd (checkServerStatus (net w i) (servers cfg ! i)) = Fulfilled s \<and>
            db_rows (fst (monitorServers cfg w st)) ! i = insert_params (servers cfg) s \<and>
            row_name (db_rows (fst (monitorServers cfg w st)) ! i) = name (servers cfg ! i) \<and>
            (probe_fails (net w i) (servers cfg ! i) \<longrightarrow>
               row_status (db_rows (fst (monitorServers cfg w st)) ! i) = status_down)) \<and>
         length (publish_calls (fst (monitorServers cfg w st))) \<le> 1 \<and>
         ((\<forall>i<length (servers cfg). db_run w i = Fulfilled ()) \<longrightarrow>
            length (publish_calls (fst (monitorServers cfg w st))) = 1)"
proof -
  let ?srvs = "servers cfg"
  let ?effs = "fst (monitorServers cfg w st)"
  obtain statuses where all: "promise_all (check_all w ?srvs) = Fulfilled statuses"
    and len: "length statuses = length ?srvs"
    and each: "\<forall>i<length ?srvs.
      snd (checkServerStatus (net w i) (?srvs ! i)) = Fulfilled (statuses ! i)"
    using check_all_settled [OF assms(2,3)] by blast
  let ?tail = "case promise_all (map (db_run w) [0..<length statuses]) of
      Fulfilled done \<Rightarrow> fst (sendDiscordNotification cfg w statuses st) | _ \<Rightarrow> []"
  have effs: "?effs = map (\<lambda>s. DbRun (insert_params ?srvs s)) statuses @ ?tail"
    using assms(1) all by (rule monitorServers_effects)
  have tail_rows: "db_rows ?tail = []"
    by (simp add: send_effects split: promise.splits)
  have tail_calls: "length (publish_calls ?tail) \<le> 1"
    using send_effects [of cfg w statuses st]
    by (cases "promise_all (map (db_run w) [0..<length statuses])")
       (simp_all add: publish_calls_def)
  have rows: "db_rows ?effs = map (insert_params ?srvs) statuses"
    by (simp only: effs db_rows_runs tail_rows append_Nil2)
  have calls: "publish_calls ?effs = publish_calls ?tail"
    by (simp only: effs publish_calls_runs)
  have "length (db_rows ?effs) = length ?srvs"
    by (simp add: rows len)
  moreover have "\<forall>i<length ?srvs. \<exists>s.
      snd (checkServerStatus (net w i) (?srvs ! i)) = Fulfilled s \<and>
      db_rows ?effs ! i = insert_params ?srvs s \<and>
      row_name (db_rows ?effs ! i) = name (?srvs ! i) \<and>
      (probe_fails (net w i) (?srvs ! i) \<longrightarrow> row_status (db_rows ?effs ! i) = status_down)"
  proof (intro allI impI)
    fix i assume i: "i < length ?srvs"
    then have c: "snd (checkServerStatus (net w i) (?srvs ! i)) = Fulfilled (statuses ! i)"
      using each by blast
    have "port_ok (?srvs ! i)" and "probe_settles (net w i) (?srvs ! i)"
      using assms(2,3) i by blast+
    then have n: "sname (statuses ! i) = name (?srvs ! i)"
      and d: "probe_fails (net w i) (?srvs ! i) \<longrightarrow> status (statuses ! i) = status_down"
      using settled_status [of "?srvs ! i" "net w i"] c by auto
    have r: "db_rows ?effs ! i = insert_params ?srvs (statuses ! i)"
      using i len by (simp add: rows)
    show "\<exists>s. snd (checkServerStatus (net w i) (?srvs ! i)) = Fulfilled s \<and>
      db_rows ?effs ! i = insert_params ?srvs s \<and>
      row_name (db_rows ?effs ! i) = name (?srvs ! i) \<and>
      (probe_fails (net w i) (?srvs ! i) \<longrightarrow> row_status (db_rows ?effs ! i) = status_down)"
      using c n d by (simp only: r) (simp add: insert_params_def Let_def)
  qed
  moreover have "length (publish_calls ?effs) \<le> 1"
    by (simp only: calls tail_calls)
  moreover have "(\<forall>i<length ?srvs. db_run w i = Fulfilled ()) \<longrightarrow>
      length (publish_calls ?effs) = 1"
  proof
    assume "\<forall>i<length ?srvs. db_run w i = Fulfilled ()"
    then have "promise_all (map (db_run w) [0..<length statuses]) =
        Fulfilled (replicate (length statuses) ())"
      using inserts_all_fulfilled [of "length statuses" w] len by simp
    then have "?tail = fst (sendDiscordNotification cfg w statuses st)"
      by simp
    then show "length (publish_calls ?effs) = 1"
      by (simp only: calls send_effects)
  qed
  ultimately show ?thesis by blast
qed

lemma mixed_ports: "\<forall>i<length (servers cfg3). port_ok (servers cfg3 ! i)"
  by (simp add: cfg3_def All_less_Suc port_ok_def legal_port_def web_def game_def db_def)

lemma mixed_settles:
  "\<forall>i<length (servers cfg3). probe_settles (net mixed i) (servers cfg3 ! i)"
  by (simp add: cfg3_def mixed_def healthy_def All_less_Suc probe_settles_def
        first_tcp_event_def first_udp_event_def answering_def silent_def
        web_def game_def db_def)

text \<open>Three servers: Good, Degraded, and one whose probe fails.\<close>

lemma cycle_with_legal_ports_example:
  "length (db_rows (fst (monitorServers cfg3 mixed initial_state))) = 3 \<and>
   row_name (db_rows (fst (monitorServers cfg3 mixed initial_state)) ! 2) = ''db'' \<and>
   row_status (db_rows (fst (monitorServers cfg3 mixed initial_state)) ! 2) = status_down \<and>
   length (publish_calls (fst (monitorServers cfg3 mixed initial_state))) = 1 \<and>
   map row_status (db_rows (fst (monitorServers cfg3 mixed initial_state))) =
     [status_good, status_degraded, status_down]"
proof -
  let ?effs = "fst (monitorServers cfg3 mixed initial_state)"
  have db: "dbPromise mixed = Fulfilled ()"
    by (simp add: mixed_def healthy_def)
  note t = cycle_with_legal_ports [OF db mixed_ports mixed_settles, of initial_state]
  have n: "length (servers cfg3) = 3" and s2: "servers cfg3 ! 2 = db" and nm: "name db = ''db''"
    by (simp_all add: cfg3_def db_def)
  have f: "probe_fails (net mixed 2) db"
    by (simp add: probe_fails_def first_tcp_event_def mixed_def healthy_def silent_def db_def)
  have two: "(2::nat) < 3" by simp
  have ins: "\<forall>i<length (servers cfg3). db_run mixed i = Fulfilled ()"
    by (simp add: mixed_def healthy_def)
  have "length (db_rows ?effs) = 3"
    using t n by simp
  moreover have "row_name (db_rows ?effs ! 2) = ''db'' \<and> row_status (db_rows ?effs ! 2) = status_down"
    using t n s2 nm f two by metis
  moreover have "length (publish_calls ?effs) = 1"
    using t ins by blast
  moreover have "map row_status (db_rows ?effs) = [status_good, status_degraded, status_down]"
    by (simp add: monitorServers_def cfg3_def mixed_def healthy_def check_all_def
          checkServerStatus_def pingServer_def port_check_def checkTCPPort_def
          checkUDPPort_def legal_port_def answering_def silent_def web_def game_def db_def
          promise_all_def status_of_def insert_params_def Let_def
          sendDiscordNotification_def initial_state_def truthy_def)
  ultimately show ?thesis by blast
qed

text \<open>
  C2. The claim is that every cycle inserts one row per configured server and that the
  failure of one probe does not prevent recording and reporting for the others. In the
  cycle over \<open>cfg_noport\<close> every host answers and every library accepts, but the port
  of the second server is NaN: its probe is rejected, \<^verbatim>\<open>Promise.all\<close> of the probes
  is rejected with it, and \<^verbatim>\<open>monitorServers\<close>, which has no catch, is rejected before
  the first \<^verbatim>\<open>db.run\<close>. No row is inserted, for the first server either, whose own
  probe succeeds, and no publish request is sent. The same cycle over two servers with
  legal ports inserts two rows and sends one request.
\<close>

theorem bad_port_rejects_cycle:
  "monitorServers cfg_noport healthy initial_state =
     ([], Rejected BadPortError, initial_state) \<and>
   snd (checkServerStatus (net healthy 0) web) =
     Fulfilled \<lparr>sname = ''web'', status = status_good, ping = Some (Num 50)\<rparr> \<and>
   db_rows (fst (monitorServers cfg_noport healthy initial_state)) = [] \<and>
   publish_calls (fst (monitorServers cfg_noport healthy initial_state)) = [] \<and>
   length (db_rows (fst (monitorServers cfg0 healthy initial_state))) = 2 \<and>
   length (publish_calls (fst (monitorServers cfg0 healthy initial_state))) = 1"
proof -
  have m: "monitorServers cfg_noport healthy initial_state =
      ([], Rejected BadPortError, initial_state)"
    by (simp add: monitorServers_def cfg_noport_def healthy_def check_all_def
          checkServerStatus_def pingServer_def port_check_def checkTCPPort_def
          checkUDPPort_def legal_port_def answering_def web_def noport_def
          promise_all_def status_of_def)
  have w: "snd (checkServerStatus (net healthy 0) web) =
      Fulfilled \<lparr>sname = ''web'', status = status_good, ping = Some (Num 50)\<rparr>"
    by (simp add: healthy_def checkServerStatus_def pingServer_def port_check_def
          checkTCPPort_def legal_port_def answering_def web_def status_of_def)
  have r: "db_rows (fst (monitorServers cfg_noport healthy initial_state)) = []"
    and c: "publish_calls (fst (monitorServers cfg_noport healthy initial_state)) = []"
    by (simp_all add: m publish_calls_def)
  have h: "length (db_rows (fst (monitorServers cfg0 healthy initial_state))) = 2 \<and>
      length (publish_calls (fst (monitorServers cfg0 healthy initial_state))) = 1"
    by (simp add: monitorServers_def cfg0_def healthy_def check_all_def
          checkServerStatus_def pingServer_def port_check_def checkTCPPort_def
          checkUDPPort_def legal_port_def answering_def web_def game_def
          promise_all_def status_of_def insert_params_def Let_def
          sendDiscordNotification_def initial_state_def truthy_def publish_calls_def)
  show ?thesis
    using m w r c h by blast
qed

section \<open>The latency in the result\<close>




section \<open>A failed insert\<close>

text \<open>
  C7. The claim is that a storage failure is caught and logged and does not abort the
  rest of the cycle. In the cycle \<open>storage_failure\<close> both inserts are issued and the
  second is rejected: the promise of \<^verbatim>\<open>monitorServers\<close> is rejected, and so are the
  promise of the timer callback and, on the first run, the one of
  \<^verbatim>\<open>startMonitoring\<close>; nothing is logged and no publish request is sent, while the same
  cycle with every insert stored sends one.
\<close>

theorem storage_failure_rejects_cycle:
  "monitorServers cfg0 storage_failure initial_state =
     ([DbRun \<lparr>row_name = ''web'', row_ip = Some ''10.0.0.1'', row_port = Some (Num 80),
         row_protocol = Some TCP, row_status = status_good, row_ping = Some (Num 50)\<rparr>,
       DbRun \<lparr>row_name = ''game'', row_ip = Some ''10.0.0.2'', row_port = Some (Num 27015),
         row_protocol = Some UDP, row_status = status_good, row_ping = Some (Num 50)\<rparr>],
      Rejected SqliteError, initial_state) \<and>
   fst (snd (interval_callback cfg0 storage_failure initial_state)) = Rejected SqliteError \<and>
   fst (snd (startMonitoring cfg0 storage_failure initial_state)) = Rejected SqliteError \<and>
   console_errors (fst (monitorServers cfg0 storage_failure initial_state)) = [] \<and>
   publish_calls (fst (monitorServers cfg0 storage_failure initial_state)) = [] \<and>
   length (publish_calls (fst (monitorServers cfg0 healthy initial_state))) = 1"
proof -
  have m: "monitorServers cfg0 storage_failure initial_state =
     ([DbRun \<lparr>row_name = ''web'', row_ip = Some ''10.0.0.1'', row_port = Some (Num 80),
         row_protocol = Some TCP, row_status = status_good, row_ping = Some (Num 50)\<rparr>,
       DbRun \<lparr>row_name = ''game'', row_ip = Some ''10.0.0.2'', row_port = Some (Num 27015),
         row_protocol = Some UDP, row_status = status_good, row_ping = Some (Num 50)\<rparr>],
      Rejected SqliteError, initial_state)"
    by (simp add: monitorServers_def cfg0_def storage_failure_def healthy_def check_all_def
          checkServerStatus_def pingServer_def port_check_def checkTCPPort_def
          checkUDPPort_def legal_port_def answering_def web_def game_def
          promise_all_def status_of_def insert_params_def Let_def)
  have s: "setupDatabase storage_failure = Fulfilled ()"
    by (simp add: setupDatabase_def storage_failure_def healthy_def)
  have h: "length (publish_calls (fst (monitorServers cfg0 healthy initial_state))) = 1"
    by (simp add: monitorServers_def cfg0_def healthy_def check_all_def
          checkServerStatus_def pingServer_def port_check_def checkTCPPort_def
          checkUDPPort_def legal_port_def answering_def web_def game_def
          promise_all_def status_of_def insert_params_def Let_def
          sendDiscordNotification_def initial_state_def truthy_def publish_calls_def)
  have pc: "publish_calls (fst (monitorServers cfg0 storage_failure initial_state)) = []"
    by (simp add: m publish_calls_def)
  have ce: "console_errors (fst (monitorServers cfg0 storage_failure initial_state)) = []"
    by (simp add: m)
  have cb: "fst (snd (interval_callback cfg0 storage_failure initial_state)) = Rejected SqliteError"
    by (simp add: m interval_callback_def)
  have sm: "fst (snd (startMonitoring cfg0 storage_failure initial_state)) = Rejected SqliteError"
    by (simp add: m s startMonitoring_def)
  show ?thesis
    using m cb sm ce pc h by blast
qed

section \<open>The order of the operations\<close>

text \<open>
  C8, as amended. The two sub-checks of a probe run one after the other: while the
  ping has not settled only the ping has been started; once it has settled the port
  check is started, second; and the result waits for both, with no short cut: it is
  fulfilled only when both have been fulfilled, and it is pending while the port
  check is.
\<close>

theorem sub_checks_in_sequence:
  "(probe w = Pending \<longrightarrow> checkServerStatus w server = ([PingProbe (ip server)], Pending)) \<and>
   (probe w \<noteq> Pending \<longrightarrow>
      fst (checkServerStatus w server) = PingProbe (ip server) # fst (port_check w server)) \<and>
   (\<forall>r. snd (checkServerStatus w server) = Fulfilled r \<longrightarrow>
      (\<exists>L R. snd (pingServer w (ip server)) = Fulfilled L \<and>
             snd (port_check w server) = Fulfilled R)) \<and>
   (snd (port_check w server) = Pending \<longrightarrow> snd (checkServerStatus w server) = Pending)"
proof -
  obtain ops2 r2 where p2: "port_check w server = (ops2, r2)"
    by (cases "port_check w server")
  show ?thesis
    by (cases "probe w"; cases r2)
       (simp_all add: checkServerStatus_def pingServer_def p2)
qed

text \<open>A ping that has not settled, a host that answers, a socket that emits nothing.\<close>

theorem sub_checks_in_sequence_witness:
  "checkServerStatus ping_pending web = ([PingProbe ''10.0.0.1''], Pending) \<and>
   fst (checkServerStatus (answering 50 [Connect] []) web) =
     [PingProbe ''10.0.0.1'', TcpConnect 3000 (Num 80) ''10.0.0.1''] \<and>
   snd (checkServerStatus (silent [] []) web) = Pending"
proof -
  have a: "probe ping_pending = Pending"
    by (simp add: ping_pending_def)
  have b: "probe (answering 50 [Connect] []) \<noteq> Pending"
    by (simp add: answering_def)
  have c: "snd (port_check (silent [] []) web) = Pending"
    by (simp add: silent_def web_port_check)
  have i: "ip web = ''10.0.0.1''"
    by (simp add: web_def)
  have o: "fst (port_check (answering 50 [Connect] []) web) =
      [TcpConnect 3000 (Num 80) ''10.0.0.1'']"
    by (simp add: port_check_def checkTCPPort_def legal_port_def web_def)
  have "checkServerStatus ping_pending web = ([PingProbe ''10.0.0.1''], Pending)"
    using sub_checks_in_sequence [of ping_pending web] a i by simp
  moreover have "fst (checkServerStatus (answering 50 [Connect] []) web) =
     [PingProbe ''10.0.0.1'', TcpConnect 3000 (Num 80) ''10.0.0.1'']"
    using sub_checks_in_sequence [of "answering 50 [Connect] []" web] b i o by simp
  moreover have "snd (checkServerStatus (silent [] []) web) = Pending"
    using sub_checks_in_sequence [of "silent [] []" web] c by blast
  ultimately show ?thesis by blast
qed

text \<open>
  C8 as stated fails: were the two sub-checks concurrent, the port check would be
  started whatever the ping does. While the ping of \<open>ping_pending\<close> has not settled,
  the connection that the port check of this server makes has not been started.
\<close>

theorem sub_checks_concurrent_counterexample:
  "fst (port_check ping_pending web) = [TcpConnect 3000 (Num 80) ''10.0.0.1''] \<and>
   fst (checkServerStatus ping_pending web) = [PingProbe ''10.0.0.1''] \<and>
   TcpConnect 3000 (Num 80) ''10.0.0.1'' \<notin> set (fst (checkServerStatus ping_pending web))"
  by (simp add: checkServerStatus_def pingServer_def port_check_def checkTCPPort_def
        legal_port_def ping_pending_def web_def)

text \<open>
  C9, as amended. Within a cycle the inserts are all issued first, whatever the
  reporter's requests answer, and the reporter waits for them: while an insert has not
  settled (and none was rejected) nothing else is done, and when all are fulfilled the
  one publish follows them.
\<close>

theorem publish_after_inserts:
  assumes "dbPromise w = Fulfilled ()"
    and "promise_all (check_all w (servers cfg)) = Fulfilled statuses"
    and "first_rejection (map (db_run w) [0..<length statuses]) = None"
  shows "\<exists>rest. fst (monitorServers cfg w st) =
             map (\<lambda>s. DbRun (insert_params (servers cfg) s)) statuses @ rest \<and>
           db_rows rest = [] \<and>
           ((\<exists>i<length statuses. db_run w i = Pending) \<longrightarrow> rest = []) \<and>
           ((\<forall>i<length statuses. db_run w i = Fulfilled ()) \<longrightarrow>
              rest = fst (sendDiscordNotification cfg w statuses st) \<and>
              length (publish_calls rest) = 1)"
proof -
  let ?all = "promise_all (map (db_run w) [0..<length statuses])"
  let ?rest = "case ?all of
      Fulfilled done \<Rightarrow> fst (sendDiscordNotification cfg w statuses st) | _ \<Rightarrow> []"
  have "fst (monitorServers cfg w st) =
      map (\<lambda>s. DbRun (insert_params (servers cfg) s)) statuses @ ?rest"
    using assms(1,2) by (rule monitorServers_effects)
  moreover have "db_rows ?rest = []"
    by (simp add: send_effects split: promise.splits)
  moreover have "(\<exists>i<length statuses. db_run w i = Pending) \<longrightarrow> ?rest = []"
  proof
    assume "\<exists>i<length statuses. db_run w i = Pending"
    then have "?all = Pending"
      using inserts_some_pending assms(3) by blast
    then show "?rest = []" by simp
  qed
  moreover have "(\<forall>i<length statuses. db_run w i = Fulfilled ()) \<longrightarrow>
      ?rest = fst (sendDiscordNotification cfg w statuses st) \<and>
      length (publish_calls ?rest) = 1"
  proof
    assume "\<forall>i<length statuses. db_run w i = Fulfilled ()"
    then have "?all = Fulfilled (replicate (length statuses) ())"
      by (rule inserts_all_fulfilled)
    then show "?rest = fst (sendDiscordNotification cfg w statuses st) \<and>
      length (publish_calls ?rest) = 1"
      by (simp add: send_effects)
  qed
  ultimately show ?thesis by blast
qed

lemma cfg0_statuses:
  "promise_all (check_all healthy (servers cfg0)) =
     Fulfilled [\<lparr>sname = ''web'', status = status_good, ping = Some (Num 50)\<rparr>,
                \<lparr>sname = ''game'', status = status_good, ping = Some (Num 50)\<rparr>]"
  by (simp add: cfg0_def healthy_def check_all_def
        checkServerStatus_def pingServer_def port_check_def checkTCPPort_def
        checkUDPPort_def legal_port_def answering_def web_def game_def promise_all_def status_of_def)

text \<open>A cycle whose first insert has not settled, and one whose inserts are stored.\<close>

theorem publish_after_inserts_witness:
  "publish_calls (fst (monitorServers cfg0 insert_pending initial_state)) = [] \<and>
   length (db_rows (fst (monitorServers cfg0 insert_pending initial_state))) = 2 \<and>
   length (db_rows (fst (monitorServers cfg0 healthy initial_state))) = 2 \<and>
   length (publish_calls (fst (monitorServers cfg0 healthy initial_state))) = 1 \<and>
   is_post (last (fst (monitorServers cfg0 healthy initial_state)))"
proof -
  let ?sts = "[\<lparr>sname = ''web'', status = status_good, ping = Some (Num 50)\<rparr>,
               \<lparr>sname = ''game'', status = status_good, ping = Some (Num 50)\<rparr>]"
  have st: "promise_all (check_all insert_pending (servers cfg0)) = Fulfilled ?sts"
    using cfg0_statuses by (simp add: insert_pending_def check_all_def)
  have d1: "dbPromise insert_pending = Fulfilled ()" and d2: "dbPromise healthy = Fulfilled ()"
    by (simp_all add: insert_pending_def healthy_def)
  have n1: "first_rejection (map (db_run insert_pending) [0..<length ?sts]) = None"
    by (simp add: insert_pending_def)
  have n2: "first_rejection (map (db_run healthy) [0..<length ?sts]) = None"
    by (simp add: healthy_def)
  have p: "\<exists>i<length ?sts. db_run insert_pending i = Pending"
    by (simp add: insert_pending_def)
  have f: "\<forall>i<length ?sts. db_run healthy i = Fulfilled ()"
    by (simp add: healthy_def)
  from publish_after_inserts [OF d1 st n1, of initial_state] p
  have a: "fst (monitorServers cfg0 insert_pending initial_state) =
      map (\<lambda>s. DbRun (insert_params (servers cfg0) s)) ?sts"
    by auto
  from publish_after_inserts [OF d2 cfg0_statuses n2, of initial_state] f
  have b: "fst (monitorServers cfg0 healthy initial_state) =
      map (\<lambda>s. DbRun (insert_params (servers cfg0) s)) ?sts @
      fst (sendDiscordNotification cfg0 healthy ?sts initial_state)"
    by auto
  have s: "fst (sendDiscordNotification cfg0 healthy ?sts initial_state) =
      [AxiosPost ''42'' (messagePayload healthy ?sts)]"
    by (simp add: sendDiscordNotification_def Let_def initial_state_def truthy_def
          healthy_def cfg0_def)
  show ?thesis
    by (simp add: a b s publish_calls_def)
qed

text \<open>
  C9 as stated fails: were the publish invoked concurrently with the inserts, it would
  be sent while an insert has not settled. In \<open>insert_pending\<close> both inserts are
  issued, the request would be accepted, and no publish request is sent.
\<close>

theorem publish_concurrent_counterexample:
  "length (db_rows (fst (monitorServers cfg0 insert_pending initial_state))) = 2 \<and>
   publish_calls (fst (monitorServers cfg0 insert_pending initial_state)) = [] \<and>
   fst (snd (monitorServers cfg0 insert_pending initial_state)) = Pending \<and>
   axios_post insert_pending = Fulfilled ''m1''"
  by (simp add: monitorServers_def cfg0_def insert_pending_def healthy_def check_all_def
        checkServerStatus_def pingServer_def port_check_def checkTCPPort_def
        checkUDPPort_def legal_port_def answering_def web_def game_def
        promise_all_def status_of_def insert_params_def Let_def publish_calls_def)

end
